theory Spec2Isabelle
  imports Complex_Main "HOL-Library.Sublist"
begin

section \<open>Strings\<close>

text \<open>
  Python strings are modelled as \<open>string\<close> (lists of 8-bit characters). The three string
  operations of \<^verbatim>\<open>src/main.py\<close> are \<^verbatim>\<open>str.replace(' ', '_')\<close>, \<^verbatim>\<open>str.splitlines()\<close>
  and the \<^verbatim>\<open>'/'\<close>-splitting that \<^verbatim>\<open>pathlib\<close> performs on path strings.
\<close>

definition str_replace :: "char \<Rightarrow> char \<Rightarrow> string \<Rightarrow> string" where
  "str_replace old new s = map (\<lambda>c. if c = old then new else c) s"

fun split_on :: "char \<Rightarrow> string \<Rightarrow> string list" where
  "split_on sep [] = [[]]"
| "split_on sep (c # cs) =
     (if c = sep then [] # split_on sep cs
      else (case split_on sep cs of
              [] \<Rightarrow> [[c]]
            | w # ws \<Rightarrow> (c # w) # ws))"

text \<open>\<^verbatim>\<open>str.rfind(c)\<close>: the index of the last occurrence, \<open>None\<close> for Python's \<open>-1\<close>.\<close>

fun rfind :: "char \<Rightarrow> string \<Rightarrow> nat option" where
  "rfind c [] = None"
| "rfind c (x # xs) =
     (case rfind c xs of
        Some i \<Rightarrow> Some (Suc i)
      | None \<Rightarrow> (if x = c then Some 0 else None))"

text \<open>
  The line boundaries of \<^verbatim>\<open>str.splitlines()\<close> that exist among 8-bit characters:
  LF, CR, VT, FF, FS, GS, RS and NEL; CR LF counts as one boundary.
\<close>

definition is_linebreak :: "char \<Rightarrow> bool" where
  "is_linebreak c \<longleftrightarrow>
     c \<in> set [CHR 0x0A, CHR 0x0D, CHR 0x0B, CHR 0x0C, CHR 0x1C, CHR 0x1D, CHR 0x1E, CHR 0x85]"

fun splitlines_from :: "string \<Rightarrow> string \<Rightarrow> string list" where
  "splitlines_from cur [] = (if cur = [] then [] else [cur])"
| "splitlines_from cur (c # cs) =
     (if c = CHR 0x0D \<and> cs \<noteq> [] \<and> hd cs = CHR 0x0A then cur # splitlines_from [] (tl cs)
      else if is_linebreak c then cur # splitlines_from [] cs
      else splitlines_from (cur @ [c]) cs)"

definition splitlines :: "string \<Rightarrow> string list" where
  "splitlines s = splitlines_from [] s"

section \<open>Paths (\<^verbatim>\<open>pathlib.Path\<close> on POSIX)\<close>

text \<open>
  A path is its root (\<open>''''\<close>, \<open>''/''\<close> or \<open>''//''\<close>) and its components. \<open>Path s\<close> is
  the constructor call \<^verbatim>\<open>Path(s)\<close>: empty components and \<^verbatim>\<open>.\<close> are dropped, \<^verbatim>\<open>..\<close> is kept.
\<close>

datatype path = PurePath (root: string) (tail: "string list")

definition splitroot :: "string \<Rightarrow> string \<times> string" where
  "splitroot s =
     (let stripped = dropWhile (\<lambda>c. c = CHR ''/'') s in
      if s \<noteq> [] \<and> hd s = CHR ''/''
      then (if length s - length stripped = 2 then (''//'', stripped) else (''/'', stripped))
      else ('''', s))"

definition Path :: "string \<Rightarrow> path" where
  "Path s =
     (case splitroot s of
        (r, rel) \<Rightarrow> PurePath r (filter (\<lambda>x. x \<noteq> [] \<and> x \<noteq> ''.'') (split_on (CHR ''/'') rel)))"

text \<open>\<^verbatim>\<open>p / child\<close> for a string \<open>child\<close>: an absolute child replaces \<open>p\<close>.\<close>

definition joinpath :: "path \<Rightarrow> string \<Rightarrow> path" where
  "joinpath p child =
     (case Path child of
        PurePath r ps \<Rightarrow> if r \<noteq> [] then PurePath r ps else PurePath (root p) (tail p @ ps))"

definition name :: "path \<Rightarrow> string" where
  "name p = (if tail p = [] then [] else last (tail p))"

definition parent :: "path \<Rightarrow> path" where
  "parent p = (if tail p = [] then p else PurePath (root p) (butlast (tail p)))"

text \<open>
  \<^verbatim>\<open>stem\<close> and \<^verbatim>\<open>suffix\<close> cut the name at its last dot, unless that dot is the first or
  the last character of the name.
\<close>

definition stem :: "path \<Rightarrow> string" where
  "stem p =
     (case rfind (CHR ''.'') (name p) of
        None \<Rightarrow> name p
      | Some i \<Rightarrow> if 0 < i \<and> Suc i < length (name p) then take i (name p) else name p)"

definition suffix_of :: "path \<Rightarrow> string" where
  "suffix_of p =
     (case rfind (CHR ''.'') (name p) of
        None \<Rightarrow> []
      | Some i \<Rightarrow> if 0 < i \<and> Suc i < length (name p) then drop i (name p) else [])"

section \<open>The clock and \<^verbatim>\<open>get_date\<close>\<close>

record date =
  year :: nat
  month :: nat
  day :: nat

definition digit :: "nat \<Rightarrow> char" where
  "digit n = ''0123456789'' ! (n mod 10)"

fun decimal :: "nat \<Rightarrow> string" where
  "decimal n = (if n < 10 then [digit n] else decimal (n div 10) @ [digit n])"

declare decimal.simps [simp del]

definition zfill :: "nat \<Rightarrow> string \<Rightarrow> string" where
  "zfill w s = replicate (w - length s) (CHR ''0'') @ s"

text \<open>
  \<^verbatim>\<open>strftime("%m-%d-%Y")\<close>: month and day are padded to two digits, the year is printed
  in decimal.
\<close>

definition strftime_mdY :: "date \<Rightarrow> string" where
  "strftime_mdY d =
     zfill 2 (decimal (month d)) @ ''-'' @ zfill 2 (decimal (day d)) @ ''-'' @ decimal (year d)"

text \<open>
  Text-mode \<^verbatim>\<open>read()\<close> translates CR LF and a lone CR to LF (universal newlines).
\<close>

fun universal_newlines :: "string \<Rightarrow> string" where
  "universal_newlines [] = []"
| "universal_newlines [c] = [if c = CHR 0x0D then CHR 0x0A else c]"
| "universal_newlines (c # d # cs) =
     (if c = CHR 0x0D \<and> d = CHR 0x0A then CHR 0x0A # universal_newlines cs
      else if c = CHR 0x0D then CHR 0x0A # universal_newlines (d # cs)
      else c # universal_newlines (d # cs))"

section \<open>Styles, canvases and pages\<close>

text \<open>
  The objects of \<^verbatim>\<open>reportlab\<close> and \<^verbatim>\<open>PyPDF2\<close> that the program touches. Lengths are in
  points, as exact rationals (Python computes them in floating point). A
  \<^verbatim>\<open>ParagraphStyle\<close> is a mutable object, so styles live in a store and are passed around
  by address.
\<close>

record style =
  fontName :: string
  fontSize :: int
  alignment :: nat
  textColor :: "rat \<times> rat \<times> rat \<times> rat"

type_synonym addr = nat

definition TA_CENTER :: nat where
  "TA_CENTER = 1"

definition inch :: rat where
  "inch = 72"

definition letter :: "rat \<times> rat" where
  "letter = (612, 792)"

definition TILT_DEGREES :: int where
  "TILT_DEGREES = 30"

text \<open>
  A drawn paragraph: its text, its anchor, the rotation of the canvas while it was drawn,
  the box it was wrapped to and the style read at that moment.
\<close>

record drawn =
  d_text :: string
  d_x :: rat
  d_y :: rat
  d_rotation :: int
  d_box :: "rat \<times> rat"
  d_style :: style

record canvas =
  pagesize :: "rat \<times> rat"
  rotation :: int
  shown :: "drawn list"

datatype mark = Original string | Stamp drawn

record page =
  mediabox :: "rat \<times> rat"
  content :: "mark list"

section \<open>The world\<close>

datatype fs_entry = PdfFile "page list" | TextFile string | Directory

datatype error =
    FileNotFoundError | IsADirectoryError | OSError | PdfReadError
  | UnicodeDecodeError | ParagraphError | ValueError

text \<open>
  What a run leaves behind, in order: successful \<^verbatim>\<open>open\<close> calls (binary read, text read,
  binary write) and calls of \<^verbatim>\<open>create_pdf\<close>.
\<close>

datatype event = OpenRead path | OpenText path | OpenWrite path | CreatePdf string

text \<open>
  \<open>files\<close> is the file system, \<open>creatable p\<close> says whether \<^verbatim>\<open>open("wb")\<close> on \<open>p\<close> is
  allowed (its directory exists and is writable), \<open>now\<close> is the date of the host clock
  (one run does not cross midnight), \<open>styles\<close> is the store of style objects.
\<close>

record world =
  files :: "path \<rightharpoonup> fs_entry"
  creatable :: "path \<Rightarrow> bool"
  now :: date
  styles :: "style list"
  trace :: "event list"

text \<open>
  \<^verbatim>\<open>_PREFIX\<close> and \<^verbatim>\<open>_SUFFIX\<close> are read from \<^verbatim>\<open>prefix.txt\<close> and \<^verbatim>\<open>suffix.txt\<close> at import;
  \<open>markup_ok\<close> says which texts \<^verbatim>\<open>Paragraph\<close> accepts (it parses its text as markup and
  raises on text it cannot parse).
\<close>

record config =
  PREFIX :: string
  SUFFIX :: string
  markup_ok :: "string \<Rightarrow> bool"

definition log :: "event \<Rightarrow> world \<Rightarrow> world" where
  "log e w = w\<lparr>trace := trace w @ [e]\<rparr>"

section \<open>The program\<close>

text \<open>
  \<^verbatim>\<open>getSampleStyleSheet()\<close> builds a new style sheet on every call; its \<^verbatim>\<open>"Normal"\<close> entry
  is a new style object with the library's defaults.
\<close>

definition sample_Normal :: style where
  "sample_Normal =
     \<lparr>fontName = ''Helvetica'', fontSize = 10, alignment = 0, textColor = (0, 0, 0, 1)\<rparr>"

definition getSampleStyleSheet_Normal :: "world \<Rightarrow> addr \<times> world" where
  "getSampleStyleSheet_Normal w = (length (styles w), w\<lparr>styles := styles w @ [sample_Normal]\<rparr>)"

definition set_style :: "addr \<Rightarrow> (style \<Rightarrow> style) \<Rightarrow> world \<Rightarrow> world" where
  "set_style a f w = w\<lparr>styles := (styles w)[a := f (styles w ! a)]\<rparr>"

definition get_style :: "world \<Rightarrow> addr \<times> world" where
  "get_style w =
     (case getSampleStyleSheet_Normal w of
        (normalStyle, w0) \<Rightarrow>
          let w1 = set_style normalStyle (\<lambda>s. s\<lparr>fontSize := 14\<rparr>) w0;
              w2 = set_style normalStyle (\<lambda>s. s\<lparr>fontName := ''Helvetica''\<rparr>) w1;
              w3 = set_style normalStyle (\<lambda>s. s\<lparr>alignment := TA_CENTER\<rparr>) w2;
              w4 = set_style normalStyle (\<lambda>s. s\<lparr>textColor := (0, 0, 0, 1 / 2)\<rparr>) w3
          in (normalStyle, w4))"

definition get_date :: "world \<Rightarrow> string" where
  "get_date w = strftime_mdY (now w)"

definition rotate :: "int \<Rightarrow> canvas \<Rightarrow> canvas" where
  "rotate theta c = c\<lparr>rotation := rotation c + theta\<rparr>"

definition drawOn :: "world \<Rightarrow> string \<Rightarrow> addr \<Rightarrow> rat \<times> rat \<Rightarrow> rat \<Rightarrow> rat \<Rightarrow> canvas \<Rightarrow> canvas" where
  "drawOn w text a box x y c =
     c\<lparr>shown := shown c @
          [\<lparr>d_text = text, d_x = x, d_y = y, d_rotation = rotation c, d_box = box,
            d_style = styles w ! a\<rparr>]\<rparr>"

definition write_paragraph ::
  "config \<Rightarrow> canvas \<Rightarrow> string \<Rightarrow> rat \<Rightarrow> rat \<Rightarrow> int option \<Rightarrow> world \<Rightarrow> (error + canvas) \<times> world" where
  "write_paragraph cfg can text x y font_size w =
     (case get_style w of
        (style, w1) \<Rightarrow>
          let w2 = (case font_size of
                      None \<Rightarrow> w1
                    | Some n \<Rightarrow> set_style style (\<lambda>s. s\<lparr>fontSize := n\<rparr>) w1)
          in if \<not> markup_ok cfg text then (Inl ParagraphError, w2)
             else
               let box = (inch * 4, inch * 4);
                   can1 = rotate TILT_DEGREES can;
                   can2 = drawOn w2 text style box x y can1;
                   can3 = rotate (- TILT_DEGREES) can2
               in (Inr can3, w2))"

definition new_canvas :: "rat \<times> rat \<Rightarrow> canvas" where
  "new_canvas sz = \<lparr>pagesize = sz, rotation = 0, shown = []\<rparr>"

text \<open>\<^verbatim>\<open>can.save()\<close> followed by \<^verbatim>\<open>PdfFileReader(packet).getPage(0)\<close>.\<close>

definition getPage0 :: "canvas \<Rightarrow> page" where
  "getPage0 c = \<lparr>mediabox = pagesize c, content = map Stamp (shown c)\<rparr>"

definition create_pdf :: "config \<Rightarrow> string \<Rightarrow> world \<Rightarrow> (error + page) \<times> world" where
  "create_pdf cfg person w =
     (let w0 = log (CreatePdf person) w;
          current_date = get_date w0;
          can = new_canvas letter;
          X_VAL = inch * (9 / 2);
          MAX_Y = inch * (15 / 2)
      in case write_paragraph cfg can (PREFIX cfg) X_VAL (MAX_Y - (3 / 2) * inch) None w0 of
           (Inl e, w1) \<Rightarrow> (Inl e, w1)
         | (Inr can1, w1) \<Rightarrow>
      (case write_paragraph cfg can1 person X_VAL (MAX_Y - 4 * inch) None w1 of
           (Inl e, w2) \<Rightarrow> (Inl e, w2)
         | (Inr can2, w2) \<Rightarrow>
      (case write_paragraph cfg can2 current_date X_VAL (MAX_Y - (21 / 5) * inch) None w2 of
           (Inl e, w3) \<Rightarrow> (Inl e, w3)
         | (Inr can3, w3) \<Rightarrow>
      (case write_paragraph cfg can3 (SUFFIX cfg) X_VAL 0 None w3 of
           (Inl e, w4) \<Rightarrow> (Inl e, w4)
         | (Inr can4, w4) \<Rightarrow> (Inr (getPage0 can4), w4)))))"

text \<open>\<^verbatim>\<open>page.mergePage(page2)\<close> appends the content of \<open>page2\<close> to the page and keeps its box.\<close>

definition mergePage :: "page \<Rightarrow> page \<Rightarrow> page" where
  "mergePage p page2 = p\<lparr>content := content p @ content page2\<rparr>"

text \<open>The \<^verbatim>\<open>for page in input_pages\<close> loop; \<open>pdf_writer\<close> is the list of pages added so far.\<close>

fun merge_loop :: "page \<Rightarrow> page list \<Rightarrow> page list \<Rightarrow> page list" where
  "merge_loop watermark [] pdf_writer = pdf_writer"
| "merge_loop watermark (p # input_pages) pdf_writer =
     merge_loop watermark input_pages (pdf_writer @ [mergePage p watermark])"

definition open_rb :: "path \<Rightarrow> world \<Rightarrow> (error + fs_entry) \<times> world" where
  "open_rb p w =
     (case files w p of
        None \<Rightarrow> (Inl FileNotFoundError, w)
      | Some Directory \<Rightarrow> (Inl IsADirectoryError, w)
      | Some f \<Rightarrow> (Inr f, log (OpenRead p) w))"

definition open_wb :: "path \<Rightarrow> world \<Rightarrow> (error + unit) \<times> world" where
  "open_wb p w =
     (if files w p = Some Directory then (Inl IsADirectoryError, w)
      else if \<not> creatable w p then (Inl OSError, w)
      else (Inr (), log (OpenWrite p) w))"

definition watermark_pdf :: "config \<Rightarrow> path \<Rightarrow> string \<Rightarrow> path \<Rightarrow> world \<Rightarrow> (error + unit) \<times> world" where
  "watermark_pdf cfg input_path person output_path w =
     (case open_rb input_path w of
        (Inl e, w1) \<Rightarrow> (Inl e, w1)
      | (Inr inp_f, w1) \<Rightarrow>
          (case inp_f of
             PdfFile input_pages \<Rightarrow>
               (case create_pdf cfg person w1 of
                  (Inl e, w2) \<Rightarrow> (Inl e, w2)
                | (Inr watermark, w2) \<Rightarrow>
                    let pdf_writer = merge_loop watermark input_pages []
                    in (case open_wb output_path w2 of
                          (Inl e, w3) \<Rightarrow> (Inl e, w3)
                        | (Inr _, w3) \<Rightarrow>
                            (Inr (), w3\<lparr>files := (files w3)(output_path \<mapsto> PdfFile pdf_writer)\<rparr>)))
           | _ \<Rightarrow> (Inl PdfReadError, w1)))"

definition combine_output_name_and_person :: "world \<Rightarrow> path \<Rightarrow> string \<Rightarrow> path" where
  "combine_output_name_and_person w output_path person =
     joinpath (parent output_path)
       (stem output_path @ ''_'' @ str_replace (CHR '' '') (CHR ''_'') person @ ''_''
          @ get_date w @ ''.pdf'')"

text \<open>The parsed command line; \<open>arg_input\<close> and \<open>arg_output\<close> are \<^verbatim>\<open>args.input\<close> and \<^verbatim>\<open>args.output\<close>.\<close>

record args =
  arg_input :: path
  arg_output :: path
  names :: "string list option"
  name_file :: "path option"

text \<open>
  The loop \<^verbatim>\<open>for person in tqdm(people)\<close>, which is the same in both branches of \<^verbatim>\<open>main\<close>;
  an exception ends it.
\<close>

fun for_people :: "config \<Rightarrow> path \<Rightarrow> path \<Rightarrow> string list \<Rightarrow> world \<Rightarrow> (error + unit) \<times> world" where
  "for_people cfg inp out [] w = (Inr (), w)"
| "for_people cfg inp out (person # people) w =
     (let output_file = combine_output_name_and_person w out person
      in case watermark_pdf cfg inp person output_file w of
           (Inl e, w1) \<Rightarrow> (Inl e, w1)
         | (Inr _, w1) \<Rightarrow> for_people cfg inp out people w1)"

text \<open>\<^verbatim>\<open>path.open("r")\<close> and \<^verbatim>\<open>f.read()\<close>; the bytes of a PDF are taken not to decode as text.\<close>

definition read_text :: "path \<Rightarrow> world \<Rightarrow> (error + string) \<times> world" where
  "read_text p w =
     (case files w p of
        None \<Rightarrow> (Inl FileNotFoundError, w)
      | Some Directory \<Rightarrow> (Inl IsADirectoryError, w)
      | Some (TextFile s) \<Rightarrow> (Inr (universal_newlines s), log (OpenText p) w)
      | Some (PdfFile _) \<Rightarrow> (Inl UnicodeDecodeError, log (OpenText p) w))"

definition exists_path :: "world \<Rightarrow> path \<Rightarrow> bool" where
  "exists_path w p \<longleftrightarrow> files w p \<noteq> None"

definition main :: "config \<Rightarrow> args \<Rightarrow> world \<Rightarrow> (error + unit) \<times> world" where
  "main cfg a w =
     (if \<not> exists_path w (arg_input a) then (Inl FileNotFoundError, w)
      else case names a of
             Some people \<Rightarrow> for_people cfg (arg_input a) (arg_output a) people w
           | None \<Rightarrow>
               (case name_file a of
                  Some nf \<Rightarrow>
                    (case read_text nf w of
                       (Inl e, w1) \<Rightarrow> (Inl e, w1)
                     | (Inr s, w1) \<Rightarrow> for_people cfg (arg_input a) (arg_output a) (splitlines s) w1)
                | None \<Rightarrow> (Inl ValueError, w)))"

section \<open>Observations used in the statements\<close>

text \<open>
  The style object that \<^verbatim>\<open>get_style\<close> returns, the overlay page that \<^verbatim>\<open>create_pdf\<close>
  returns when its four paragraphs are accepted, and the condition for that.
\<close>

definition watermark_style :: style where
  "watermark_style = \<lparr>fontName = ''Helvetica'', fontSize = 14, alignment = TA_CENTER, textColor = (0, 0, 0, 1 / 2)\<rparr>"

definition overlay :: "config \<Rightarrow> string \<Rightarrow> world \<Rightarrow> page" where
  "overlay cfg person w =
     \<lparr>mediabox = letter,
      content = map (\<lambda>(t, y). Stamp \<lparr>d_text = t, d_x = 324, d_y = y, d_rotation = TILT_DEGREES,
                                    d_box = (288, 288), d_style = watermark_style\<rparr>)
                  [(PREFIX cfg, 432), (person, 252), (get_date w, 1188 / 5), (SUFFIX cfg, 0)]\<rparr>"

definition renders :: "config \<Rightarrow> string \<Rightarrow> world \<Rightarrow> bool" where
  "renders cfg person w \<longleftrightarrow>
     markup_ok cfg (PREFIX cfg) \<and> markup_ok cfg person \<and> markup_ok cfg (get_date w)
     \<and> markup_ok cfg (SUFFIX cfg)"

text \<open>The events a run appended to the trace, and the recipients \<^verbatim>\<open>create_pdf\<close> was called for.\<close>

definition events_since :: "world \<Rightarrow> world \<Rightarrow> event list" where
  "events_since w w' = drop (length (trace w)) (trace w')"

fun created :: "event list \<Rightarrow> string list" where
  "created [] = []"
| "created (CreatePdf person # es) = person # created es"
| "created (_ # es) = created es"

text \<open>
  The scenario used to instantiate the theorems: a two-page \<^verbatim>\<open>report.pdf\<close>, a name file
  holding Alice and Bob, and the date 01-15-2024.
\<close>

definition ex_cfg :: config where
  "ex_cfg = \<lparr>PREFIX = ''CONFIDENTIAL'', SUFFIX = ''DO NOT DISTRIBUTE'',
             markup_ok = (\<lambda>s. CHR ''<'' \<notin> set s)\<rparr>"

definition ex_pages :: "page list" where
  "ex_pages = [\<lparr>mediabox = (612, 792), content = [Original ''page one'']\<rparr>,
               \<lparr>mediabox = (595, 842), content = [Original ''page two'']\<rparr>]"

definition ex_world :: world where
  "ex_world =
     \<lparr>files = [PurePath [] [''report.pdf''] \<mapsto> PdfFile ex_pages,
               PurePath [] [''names.txt''] \<mapsto> TextFile ''Alice\<newline>Bob\<newline>''],
      creatable = (\<lambda>p. True),
      now = \<lparr>year = 2024, month = 1, day = 15\<rparr>,
      styles = [],
      trace = []\<rparr>"

section \<open>Facts about the parts\<close>

lemma get_style_eq:
  "get_style w = (length (styles w), w\<lparr>styles := styles w @ [watermark_style]\<rparr>)"
  by (simp add: get_style_def getSampleStyleSheet_Normal_def set_style_def sample_Normal_def
      watermark_style_def Let_def)

lemma write_paragraph_eq:
  "write_paragraph cfg can text x y font_size w =
     (let st = watermark_style\<lparr>fontSize := (case font_size of None \<Rightarrow> 14 | Some n \<Rightarrow> n)\<rparr>;
          w' = w\<lparr>styles := styles w @ [st]\<rparr>
      in if \<not> markup_ok cfg text then (Inl ParagraphError, w')
         else (Inr (can\<lparr>shown := shown can @
                 [\<lparr>d_text = text, d_x = x, d_y = y, d_rotation = rotation can + TILT_DEGREES,
                   d_box = (inch * 4, inch * 4), d_style = st\<rparr>]\<rparr>), w'))"
  by (cases font_size)
     (simp_all add: write_paragraph_def get_style_eq set_style_def rotate_def drawOn_def Let_def
        watermark_style_def)

lemma merge_loop_eq:
  "merge_loop watermark ps acc = acc @ map (\<lambda>p. mergePage p watermark) ps"
  by (induction ps arbitrary: acc) simp_all


lemma log_simps [simp]:
  "files (log e w) = files w" "creatable (log e w) = creatable w" "now (log e w) = now w"
  "styles (log e w) = styles w" "trace (log e w) = trace w @ [e]"
  by (simp_all add: log_def)

lemma get_date_log [simp]: "get_date (log e w) = get_date w"
  by (simp add: get_date_def log_def)

lemma create_pdf_frame:
  assumes "create_pdf cfg person w = (r, w')"
  shows "files w' = files w" and "creatable w' = creatable w" and "now w' = now w"
    and "trace w' = trace w @ [CreatePdf person]"
  using assms
  by (auto simp: create_pdf_def write_paragraph_eq Let_def log_def split: if_splits)

lemma create_pdf_renders:
  "renders cfg person w \<Longrightarrow> fst (create_pdf cfg person w) = Inr (overlay cfg person w)"
  by (simp add: create_pdf_def write_paragraph_eq Let_def renders_def overlay_def new_canvas_def
      getPage0_def inch_def letter_def watermark_style_def)

lemma create_pdf_fails:
  "\<not> renders cfg person w \<Longrightarrow> fst (create_pdf cfg person w) = Inl ParagraphError"
  by (auto simp: create_pdf_def write_paragraph_eq Let_def renders_def)


lemma watermark_pdf_eq:
  "watermark_pdf cfg inp person out w =
     (case files w inp of
        None \<Rightarrow> (Inl FileNotFoundError, w)
      | Some Directory \<Rightarrow> (Inl IsADirectoryError, w)
      | Some (TextFile s) \<Rightarrow> (Inl PdfReadError, log (OpenRead inp) w)
      | Some (PdfFile pages) \<Rightarrow>
          (case create_pdf cfg person (log (OpenRead inp) w) of
             (Inl e, w2) \<Rightarrow> (Inl e, w2)
           | (Inr wm, w2) \<Rightarrow>
               if files w out = Some Directory then (Inl IsADirectoryError, w2)
               else if \<not> creatable w out then (Inl OSError, w2)
               else (Inr (), (log (OpenWrite out) w2)
                      \<lparr>files := (files w)(out \<mapsto> PdfFile (map (\<lambda>p. mergePage p wm) pages))\<rparr>)))"
proof (cases "files w inp")
  case None
  then show ?thesis by (simp add: watermark_pdf_def open_rb_def)
next
  case (Some f)
  show ?thesis
  proof (cases f)
    case (PdfFile pages)
    obtain r w2 where c: "create_pdf cfg person (log (OpenRead inp) w) = (r, w2)"
      by (cases "create_pdf cfg person (log (OpenRead inp) w)")
    have fr: "files w2 = files w" "creatable w2 = creatable w"
      using create_pdf_frame(1,2)[OF c] by (simp_all add: log_def)
    show ?thesis using Some PdfFile c fr
      by (cases r) (simp_all add: watermark_pdf_def open_rb_def open_wb_def merge_loop_eq log_def)
  qed (use Some in \<open>simp_all add: watermark_pdf_def open_rb_def\<close>)
qed


lemma overlay_log [simp]: "overlay cfg person (log e w) = overlay cfg person w"
  by (simp add: overlay_def)

lemma renders_log [simp]: "renders cfg person (log e w) = renders cfg person w"
  by (simp add: renders_def)

lemma events_since_append [simp]: "trace w' = trace w @ es \<Longrightarrow> events_since w w' = es"
  by (simp add: events_since_def)

lemma watermark_pdf_run:
  assumes run: "watermark_pdf cfg inp person out w = (r, w')"
  shows "(\<forall>pages. files w inp \<noteq> Some (PdfFile pages)) \<Longrightarrow>
           r \<in> {Inl FileNotFoundError, Inl IsADirectoryError, Inl PdfReadError}
           \<and> files w' = files w \<and> events_since w w' \<in> {[], [OpenRead inp]}"
    and "files w inp = Some (PdfFile pages) \<Longrightarrow> \<not> renders cfg person w \<Longrightarrow>
           r = Inl ParagraphError \<and> files w' = files w
           \<and> events_since w w' = [OpenRead inp, CreatePdf person]"
    and "files w inp = Some (PdfFile pages) \<Longrightarrow> renders cfg person w \<Longrightarrow>
           files w out = Some Directory \<or> \<not> creatable w out \<Longrightarrow>
           r \<in> {Inl IsADirectoryError, Inl OSError} \<and> files w' = files w
           \<and> events_since w w' = [OpenRead inp, CreatePdf person]"
    and "files w inp = Some (PdfFile pages) \<Longrightarrow> renders cfg person w \<Longrightarrow>
           files w out \<noteq> Some Directory \<Longrightarrow> creatable w out \<Longrightarrow>
           r = Inr ()
           \<and> files w' = (files w)(out \<mapsto> PdfFile (map (\<lambda>p. mergePage p (overlay cfg person w)) pages))
           \<and> events_since w w' = [OpenRead inp, CreatePdf person, OpenWrite out]"
proof -
  obtain c w2 where c: "create_pdf cfg person (log (OpenRead inp) w) = (c, w2)"
    by (cases "create_pdf cfg person (log (OpenRead inp) w)")
  note fr = create_pdf_frame[OF c]
  have tr: "trace w2 = trace w @ [OpenRead inp, CreatePdf person]"
    using fr(4) by simp
  have fl: "files w2 = files w"
    using fr(1) by simp
  have ok: "renders cfg person w \<Longrightarrow> c = Inr (overlay cfg person w)"
    using c create_pdf_renders[of cfg person "log (OpenRead inp) w"] by simp
  have ko: "\<not> renders cfg person w \<Longrightarrow> c = Inl ParagraphError"
    using c create_pdf_fails[of cfg person "log (OpenRead inp) w"] by simp
  show "(\<forall>pages. files w inp \<noteq> Some (PdfFile pages)) \<Longrightarrow>
           r \<in> {Inl FileNotFoundError, Inl IsADirectoryError, Inl PdfReadError}
           \<and> files w' = files w \<and> events_since w w' \<in> {[], [OpenRead inp]}"
    using run
    by (auto simp: watermark_pdf_eq events_since_def split: option.splits fs_entry.splits)
  show "files w inp = Some (PdfFile pages) \<Longrightarrow> \<not> renders cfg person w \<Longrightarrow>
           r = Inl ParagraphError \<and> files w' = files w
           \<and> events_since w w' = [OpenRead inp, CreatePdf person]"
    using run c ko tr fl by (auto simp: watermark_pdf_eq)
  show "files w inp = Some (PdfFile pages) \<Longrightarrow> renders cfg person w \<Longrightarrow>
           files w out = Some Directory \<or> \<not> creatable w out \<Longrightarrow>
           r \<in> {Inl IsADirectoryError, Inl OSError} \<and> files w' = files w
           \<and> events_since w w' = [OpenRead inp, CreatePdf person]"
    using run c ok tr fl by (auto simp: watermark_pdf_eq split: if_splits)
  show "files w inp = Some (PdfFile pages) \<Longrightarrow> renders cfg person w \<Longrightarrow>
           files w out \<noteq> Some Directory \<Longrightarrow> creatable w out \<Longrightarrow>
           r = Inr ()
           \<and> files w' = (files w)(out \<mapsto> PdfFile (map (\<lambda>p. mergePage p (overlay cfg person w)) pages))
           \<and> events_since w w' = [OpenRead inp, CreatePdf person, OpenWrite out]"
    using run c ok tr fl by (auto simp: watermark_pdf_eq)
qed


lemma ex_date: "get_date ex_world = ''01-15-2024''"
  by (simp add: get_date_def ex_world_def strftime_mdY_def zfill_def decimal.simps digit_def)

lemma ex_renders: "renders ex_cfg ''Jane Doe'' ex_world"
  by (simp add: renders_def ex_date) (simp add: ex_cfg_def)

section \<open>The claims\<close>



lemma created_cases:
  "created [] = []" "created [OpenRead p] = []" "created [OpenRead p, CreatePdf q] = [q]"
  "created [OpenRead p, CreatePdf q, OpenWrite o'] = [q]"
  by simp_all

lemma ex_run_ok:
  "fst (watermark_pdf ex_cfg (PurePath [] [''report.pdf'']) ''Jane Doe''
          (PurePath [] [''out_Jane_Doe_01-15-2024.pdf'']) ex_world) = Inr ()"
proof -
  have "files ex_world (PurePath [] [''report.pdf'']) = Some (PdfFile ex_pages)"
    "files ex_world (PurePath [] [''out_Jane_Doe_01-15-2024.pdf'']) \<noteq> Some Directory"
    "creatable ex_world (PurePath [] [''out_Jane_Doe_01-15-2024.pdf''])"
    by (simp_all add: ex_world_def)
  then show ?thesis
    using watermark_pdf_run(4)[OF surjective_pairing _ ex_renders, where inp = "PurePath [] [''report.pdf'']"
        and out = "PurePath [] [''out_Jane_Doe_01-15-2024.pdf'']"] by simp
qed


text \<open>
  C3. Within one call of \<^verbatim>\<open>watermark_pdf\<close>, \<^verbatim>\<open>create_pdf\<close> is called at most once, and on
  a normal return exactly once, for this recipient; the one overlay page it returned is
  merged onto every page of the source, so every page of the output carries the same
  watermark content.
\<close>

theorem watermark_pdf_one_overlay:
  assumes "watermark_pdf cfg inp person out w = (r, w')"
  shows "length (created (events_since w w')) \<le> 1
       \<and> (r = Inr () \<longrightarrow>
            created (events_since w w') = [person]
            \<and> (\<exists>pages wm. files w inp = Some (PdfFile pages)
                  \<and> fst (create_pdf cfg person (log (OpenRead inp) w)) = Inr wm
                  \<and> files w' out = Some (PdfFile (map (\<lambda>p. mergePage p wm) pages))))"
proof (cases "\<exists>pages. files w inp = Some (PdfFile pages)")
  case False
  then show ?thesis using watermark_pdf_run(1)[OF assms] by auto
next
  case True
  then obtain pages where p: "files w inp = Some (PdfFile pages)" by blast
  note cases = watermark_pdf_run(2-4)[OF assms p]
  show ?thesis
  proof (cases "renders cfg person w")
    case False
    then show ?thesis using cases(1) by simp
  next
    case True
    have wm: "fst (create_pdf cfg person (log (OpenRead inp) w)) = Inr (overlay cfg person w)"
      using create_pdf_renders[of cfg person "log (OpenRead inp) w"] True by simp
    show ?thesis
    proof (cases "files w out = Some Directory \<or> \<not> creatable w out")
      case True
      then show ?thesis using cases(2) \<open>renders cfg person w\<close> by auto
    next
      case False
      then show ?thesis using cases(3) \<open>renders cfg person w\<close> p wm by simp
    qed
  qed
qed

theorem watermark_pdf_one_overlay_witness:
  "fst (watermark_pdf ex_cfg (PurePath [] [''report.pdf'']) ''Jane Doe''
          (PurePath [] [''out_Jane_Doe_01-15-2024.pdf'']) ex_world) = Inr ()
   \<and> created (events_since ex_world
        (snd (watermark_pdf ex_cfg (PurePath [] [''report.pdf'']) ''Jane Doe''
                (PurePath [] [''out_Jane_Doe_01-15-2024.pdf'']) ex_world))) = [''Jane Doe'']
   \<and> (\<exists>wm. fst (create_pdf ex_cfg ''Jane Doe'' (log (OpenRead (PurePath [] [''report.pdf''])) ex_world))
              = Inr wm
         \<and> files (snd (watermark_pdf ex_cfg (PurePath [] [''report.pdf'']) ''Jane Doe''
                         (PurePath [] [''out_Jane_Doe_01-15-2024.pdf'']) ex_world))
              (PurePath [] [''out_Jane_Doe_01-15-2024.pdf''])
            = Some (PdfFile (map (\<lambda>p. mergePage p wm) ex_pages)))"
proof -
  have f: "files ex_world (PurePath [] [''report.pdf'']) = Some (PdfFile ex_pages)"
    by (simp add: ex_world_def)
  show ?thesis
    using watermark_pdf_one_overlay [OF surjective_pairing, where cfg = ex_cfg
        and inp = "PurePath [] [''report.pdf'']" and person = "''Jane Doe''"
        and out = "PurePath [] [''out_Jane_Doe_01-15-2024.pdf'']" and w = ex_world] ex_run_ok f
    by simp
qed

text \<open>
  C4. If the input path does not exist, \<^verbatim>\<open>main\<close> raises \<^verbatim>\<open>FileNotFoundError\<close> and leaves
  the world as it was: no recipient is processed (nothing is opened, \<^verbatim>\<open>create_pdf\<close> is not
  called) and no file is created.
\<close>

theorem main_missing_input:
  assumes "\<not> exists_path w (arg_input a)"
  shows "main cfg a w = (Inl FileNotFoundError, w)"
  using assms by (simp add: main_def)

theorem main_missing_input_witness:
  "\<not> exists_path ex_world (PurePath [] [''missing.pdf''])
   \<and> main ex_cfg \<lparr>arg_input = PurePath [] [''missing.pdf''], arg_output = PurePath [] [''out.pdf''],
                  names = Some [''Jane Doe''], name_file = None\<rparr> ex_world
       = (Inl FileNotFoundError, ex_world)"
proof -
  have h: "\<not> exists_path ex_world (arg_input \<lparr>arg_input = PurePath [] [''missing.pdf''],
             arg_output = PurePath [] [''out.pdf''], names = Some [''Jane Doe''], name_file = None\<rparr>)"
    by (simp add: exists_path_def ex_world_def)
  show ?thesis
    using main_missing_input [OF h, where cfg = ex_cfg] h by simp
qed

text \<open>
  C5, as stated: with neither \<^verbatim>\<open>--names\<close> nor \<^verbatim>\<open>--name-file\<close>, \<^verbatim>\<open>main\<close> raises the
  no-recipients error. This fails when the input path does not exist: the existence check
  comes first and raises \<^verbatim>\<open>FileNotFoundError\<close>.
\<close>

theorem main_no_recipients_counterexample:
  "names \<lparr>arg_input = PurePath [] [''missing.pdf''], arg_output = PurePath [] [''out.pdf''],
          names = None, name_file = None\<rparr> = None
   \<and> name_file \<lparr>arg_input = PurePath [] [''missing.pdf''], arg_output = PurePath [] [''out.pdf''],
          names = None, name_file = None\<rparr> = None
   \<and> fst (main ex_cfg \<lparr>arg_input = PurePath [] [''missing.pdf''], arg_output = PurePath [] [''out.pdf''],
                       names = None, name_file = None\<rparr> ex_world) = Inl FileNotFoundError
   \<and> fst (main ex_cfg \<lparr>arg_input = PurePath [] [''missing.pdf''], arg_output = PurePath [] [''out.pdf''],
                       names = None, name_file = None\<rparr> ex_world) \<noteq> Inl ValueError"
  by (simp add: main_def exists_path_def ex_world_def)

text \<open>
  C5, amended. With neither \<^verbatim>\<open>--names\<close> nor \<^verbatim>\<open>--name-file\<close>, \<^verbatim>\<open>main\<close> raises
  \<^verbatim>\<open>ValueError\<close> when the input path exists and \<^verbatim>\<open>FileNotFoundError\<close> when it does not;
  either way the world is left as it was, so no file is written.
\<close>

theorem main_no_recipients:
  assumes "names a = None" and "name_file a = None"
  shows "main cfg a w =
           (Inl (if exists_path w (arg_input a) then ValueError else FileNotFoundError), w)"
  using assms by (simp add: main_def)


theorem main_no_recipients_witness:
  "exists_path ex_world (PurePath [] [''report.pdf''])
   \<and> main ex_cfg \<lparr>arg_input = PurePath [] [''report.pdf''], arg_output = PurePath [] [''out.pdf''],
                  names = None, name_file = None\<rparr> ex_world
       = (Inl ValueError, ex_world)"
proof -
  have h: "exists_path ex_world (PurePath [] [''report.pdf''])"
    by (simp add: exists_path_def ex_world_def)
  show ?thesis
    using main_no_recipients [where a = "\<lparr>arg_input = PurePath [] [''report.pdf''],
        arg_output = PurePath [] [''out.pdf''], names = None, name_file = None\<rparr>"
        and cfg = ex_cfg and w = ex_world] h
    by simp
qed



lemma overlay_content:
  "content (overlay cfg person w) =
     [Stamp \<lparr>d_text = PREFIX cfg, d_x = 324, d_y = 432, d_rotation = TILT_DEGREES,
             d_box = (288, 288), d_style = watermark_style\<rparr>,
      Stamp \<lparr>d_text = person, d_x = 324, d_y = 252, d_rotation = TILT_DEGREES,
             d_box = (288, 288), d_style = watermark_style\<rparr>,
      Stamp \<lparr>d_text = get_date w, d_x = 324, d_y = 1188 / 5, d_rotation = TILT_DEGREES,
             d_box = (288, 288), d_style = watermark_style\<rparr>,
      Stamp \<lparr>d_text = SUFFIX cfg, d_x = 324, d_y = 0, d_rotation = TILT_DEGREES,
             d_box = (288, 288), d_style = watermark_style\<rparr>]"
  by (simp add: overlay_def)

lemma create_pdf_page:
  assumes "fst (create_pdf cfg person w) = Inr wm"
  shows "wm = overlay cfg person w"
  using assms create_pdf_renders[of cfg person w] create_pdf_fails[of cfg person w]
  by (cases "renders cfg person w") simp_all

lemma ex_create_pdf:
  "fst (create_pdf ex_cfg ''Jane Doe'' ex_world) = Inr (overlay ex_cfg ''Jane Doe'' ex_world)"
  using create_pdf_renders[OF ex_renders] .

text \<open>
  C6. \<^verbatim>\<open>write_paragraph\<close> rotates the canvas by 30 degrees, draws the paragraph at its
  anchor and rotates the canvas by -30 degrees: the paragraph is drawn at the rotation
  the canvas had plus 30, and after the call the rotation of the canvas is what it was
  before. Rotation does not accumulate: each of the four blocks of an overlay is drawn at
  30 degrees. (The canvas is modelled by its angle in whole degrees; \<^verbatim>\<open>reportlab\<close>
  multiplies floating-point matrices, which is outside this model.)
\<close>

theorem write_paragraph_rotation_restored:
  assumes "write_paragraph cfg can text x y font_size w = (Inr can', w')"
  shows "rotation can' = rotation can
       \<and> (\<exists>a. can' = rotate (- 30) (drawOn w' text a (inch * 4, inch * 4) x y (rotate 30 can)))
       \<and> (\<exists>d. shown can' = shown can @ [d] \<and> d_text d = text \<and> d_x d = x \<and> d_y d = y
              \<and> d_rotation d = rotation can + 30)
       \<and> (fst (create_pdf cfg person w0) = Inr wm \<longrightarrow>
            map (case_mark (\<lambda>s. 0) d_rotation) (content wm) = [30, 30, 30, 30])"
proof -
  have ok: "markup_ok cfg text"
    using assms by (auto simp: write_paragraph_eq Let_def split: if_splits)
  have c: "can' = can\<lparr>shown := shown can @
                 [\<lparr>d_text = text, d_x = x, d_y = y, d_rotation = rotation can + TILT_DEGREES,
                   d_box = (inch * 4, inch * 4),
                   d_style = watermark_style\<lparr>fontSize := (case font_size of None \<Rightarrow> 14 | Some n \<Rightarrow> n)\<rparr>\<rparr>]\<rparr>"
    and w': "w' = w\<lparr>styles := styles w @
                 [watermark_style\<lparr>fontSize := (case font_size of None \<Rightarrow> 14 | Some n \<Rightarrow> n)\<rparr>]\<rparr>"
    using assms ok by (simp_all add: write_paragraph_eq Let_def)
  have r: "rotation can' = rotation can"
    by (simp add: c)
  have e: "\<exists>a. can' = rotate (- 30) (drawOn w' text a (inch * 4, inch * 4) x y (rotate 30 can))"
    by (rule exI[of _ "length (styles w)"]) (simp add: c w' rotate_def drawOn_def TILT_DEGREES_def)
  have d: "\<exists>d. shown can' = shown can @ [d] \<and> d_text d = text \<and> d_x d = x \<and> d_y d = y
              \<and> d_rotation d = rotation can + 30"
    by (simp add: c TILT_DEGREES_def)
  have f: "fst (create_pdf cfg person w0) = Inr wm \<longrightarrow>
            map (case_mark (\<lambda>s. 0) d_rotation) (content wm) = [30, 30, 30, 30]"
    using create_pdf_page[of cfg person w0 wm] by (auto simp: overlay_content TILT_DEGREES_def)
  show ?thesis
    using r e d f by blast
qed

theorem write_paragraph_rotation_restored_witness:
  "write_paragraph ex_cfg (new_canvas letter) ''Jane Doe'' 324 252 None ex_world =
     (Inr ((new_canvas letter)\<lparr>shown :=
             [\<lparr>d_text = ''Jane Doe'', d_x = 324, d_y = 252, d_rotation = 30, d_box = (288, 288),
               d_style = watermark_style\<rparr>]\<rparr>),
      ex_world\<lparr>styles := [watermark_style]\<rparr>)
   \<and> rotation ((new_canvas letter)\<lparr>shown :=
             [\<lparr>d_text = ''Jane Doe'', d_x = 324, d_y = 252, d_rotation = 30, d_box = (288, 288),
               d_style = watermark_style\<rparr>]\<rparr>) = rotation (new_canvas letter)
   \<and> fst (create_pdf ex_cfg ''Jane Doe'' ex_world) = Inr (overlay ex_cfg ''Jane Doe'' ex_world)
   \<and> map (case_mark (\<lambda>s. 0) d_rotation) (content (overlay ex_cfg ''Jane Doe'' ex_world))
       = [30, 30, 30, 30]"
proof -
  have run: "write_paragraph ex_cfg (new_canvas letter) ''Jane Doe'' 324 252 None ex_world =
     (Inr ((new_canvas letter)\<lparr>shown :=
             [\<lparr>d_text = ''Jane Doe'', d_x = 324, d_y = 252, d_rotation = 30, d_box = (288, 288),
               d_style = watermark_style\<rparr>]\<rparr>),
      ex_world\<lparr>styles := [watermark_style]\<rparr>)"
    by (simp add: write_paragraph_eq Let_def ex_cfg_def ex_world_def new_canvas_def
        TILT_DEGREES_def inch_def watermark_style_def)
  show ?thesis
    using write_paragraph_rotation_restored [OF run, where person = "''Jane Doe''" and ?w0.0 = ex_world
        and wm = "overlay ex_cfg ''Jane Doe'' ex_world"] run ex_create_pdf
    by simp
qed

text \<open>
  C8, as stated: a font-size override given to one \<^verbatim>\<open>write_paragraph\<close> call is visible to
  the draw calls that follow. This fails: after a call with the override 20, a call
  without override draws at size 14, and the store holds two style objects, one of size
  20 and one of size 14.
\<close>

theorem write_paragraph_shared_style_counterexample:
  "(case write_paragraph ex_cfg (new_canvas letter) ''first'' 0 0 (Some 20) ex_world of
      (Inl e, w1) \<Rightarrow> False
    | (Inr can1, w1) \<Rightarrow>
        (case write_paragraph ex_cfg can1 ''second'' 0 0 None w1 of
           (Inl e, w2) \<Rightarrow> False
         | (Inr can2, w2) \<Rightarrow>
             map (\<lambda>d. fontSize (d_style d)) (shown can2) = [20, 14]
             \<and> map fontSize (styles w2) = [20, 14]))"
  by (simp add: write_paragraph_eq Let_def ex_cfg_def ex_world_def new_canvas_def
      watermark_style_def)

text \<open>
  C8, amended. Every \<^verbatim>\<open>write_paragraph\<close> call gets a new style object from
  \<^verbatim>\<open>get_style\<close>, which sets its font size to 14; an override changes that object only.
  The style objects already in the store are left as they were, and the paragraph is
  drawn with the override of its own call, or at 14 without one, whatever the calls before
  it did. \<^verbatim>\<open>create_pdf\<close> passes no override: its four blocks are drawn at size 14.
\<close>

theorem write_paragraph_style_local:
  assumes "write_paragraph cfg can text x y font_size w = (Inr can', w')"
  shows "(\<exists>st. styles w' = styles w @ [st] \<and> d_style (last (shown can')) = st
            \<and> st = watermark_style\<lparr>fontSize := (case font_size of None \<Rightarrow> 14 | Some n \<Rightarrow> n)\<rparr>)
       \<and> (fst (create_pdf cfg person w0) = Inr wm \<longrightarrow>
            map (case_mark (\<lambda>s. 0) (\<lambda>d. fontSize (d_style d))) (content wm) = [14, 14, 14, 14])"
proof -
  have ok: "markup_ok cfg text"
    using assms by (auto simp: write_paragraph_eq Let_def split: if_splits)
  have "styles w' = styles w @ [watermark_style\<lparr>fontSize := (case font_size of None \<Rightarrow> 14 | Some n \<Rightarrow> n)\<rparr>]"
    and "d_style (last (shown can')) = watermark_style\<lparr>fontSize := (case font_size of None \<Rightarrow> 14 | Some n \<Rightarrow> n)\<rparr>"
    using assms ok by (auto simp: write_paragraph_eq Let_def)
  moreover have "map (case_mark (\<lambda>s. 0) (\<lambda>d. fontSize (d_style d))) (content wm) = [14, 14, 14, 14]"
    if "fst (create_pdf cfg person w0) = Inr wm"
    using create_pdf_page[OF that] by (simp add: overlay_content watermark_style_def)
  ultimately show ?thesis by simp
qed

theorem write_paragraph_style_local_witness:
  "write_paragraph ex_cfg (new_canvas letter) ''first'' 0 0 (Some 20) ex_world =
     (Inr ((new_canvas letter)\<lparr>shown :=
             [\<lparr>d_text = ''first'', d_x = 0, d_y = 0, d_rotation = 30, d_box = (288, 288),
               d_style = watermark_style\<lparr>fontSize := 20\<rparr>\<rparr>]\<rparr>),
      ex_world\<lparr>styles := [watermark_style\<lparr>fontSize := 20\<rparr>]\<rparr>)
   \<and> styles (ex_world\<lparr>styles := [watermark_style\<lparr>fontSize := 20\<rparr>]\<rparr>)
       = styles ex_world @ [watermark_style\<lparr>fontSize := 20\<rparr>]
   \<and> fst (create_pdf ex_cfg ''Jane Doe'' ex_world) = Inr (overlay ex_cfg ''Jane Doe'' ex_world)
   \<and> map (case_mark (\<lambda>s. 0) (\<lambda>d. fontSize (d_style d))) (content (overlay ex_cfg ''Jane Doe'' ex_world))
       = [14, 14, 14, 14]"
proof -
  have run: "write_paragraph ex_cfg (new_canvas letter) ''first'' 0 0 (Some 20) ex_world =
     (Inr ((new_canvas letter)\<lparr>shown :=
             [\<lparr>d_text = ''first'', d_x = 0, d_y = 0, d_rotation = 30, d_box = (288, 288),
               d_style = watermark_style\<lparr>fontSize := 20\<rparr>\<rparr>]\<rparr>),
      ex_world\<lparr>styles := [watermark_style\<lparr>fontSize := 20\<rparr>]\<rparr>)"
    by (simp add: write_paragraph_eq Let_def ex_cfg_def ex_world_def new_canvas_def
        TILT_DEGREES_def inch_def watermark_style_def)
  show ?thesis
    using write_paragraph_style_local [OF run, where person = "''Jane Doe''" and ?w0.0 = ex_world
        and wm = "overlay ex_cfg ''Jane Doe'' ex_world"] run ex_create_pdf
    by simp
qed

lemma create_pdf_shift:
  "create_pdf cfg person (w\<lparr>trace := t\<rparr>) =
     (fst (create_pdf cfg person w), (snd (create_pdf cfg person w))\<lparr>trace := t @ [CreatePdf person]\<rparr>)"
  by (simp add: create_pdf_def write_paragraph_eq Let_def log_def get_date_def)

lemma combine_trace [simp]:
  "combine_output_name_and_person (w\<lparr>trace := t\<rparr>) out person =
     combine_output_name_and_person w out person"
  by (simp add: combine_output_name_and_person_def get_date_def)

lemma watermark_pdf_shift:
  "\<exists>r w' es. (\<forall>t. watermark_pdf cfg inp person out (w\<lparr>trace := t\<rparr>) = (r, w'\<lparr>trace := t @ es\<rparr>))
      \<and> prefix es [OpenRead inp, CreatePdf person, OpenWrite out]
      \<and> (r = Inr () \<longrightarrow> es = [OpenRead inp, CreatePdf person, OpenWrite out])"
proof (cases "files w inp")
  case None
  then have "\<forall>t. watermark_pdf cfg inp person out (w\<lparr>trace := t\<rparr>) = (Inl FileNotFoundError, w\<lparr>trace := t @ []\<rparr>)"
    by (simp add: watermark_pdf_eq)
  then show ?thesis by (intro exI[of _ "Inl FileNotFoundError"] exI[of _ w] exI[of _ "[]"]) simp
next
  case (Some f)
  show ?thesis
  proof (cases f)
    case Directory
    with Some have "\<forall>t. watermark_pdf cfg inp person out (w\<lparr>trace := t\<rparr>) = (Inl IsADirectoryError, w\<lparr>trace := t @ []\<rparr>)"
      by (simp add: watermark_pdf_eq)
    then show ?thesis by (intro exI[of _ "Inl IsADirectoryError"] exI[of _ w] exI[of _ "[]"]) simp
  next
    case (TextFile s)
    with Some have "\<forall>t. watermark_pdf cfg inp person out (w\<lparr>trace := t\<rparr>) = (Inl PdfReadError, w\<lparr>trace := t @ [OpenRead inp]\<rparr>)"
      by (simp add: watermark_pdf_eq log_def)
    then show ?thesis by (intro exI[of _ "Inl PdfReadError"] exI[of _ w] exI[of _ "[OpenRead inp]"]) simp
  next
    case (PdfFile pages)
    obtain c w2 where c: "create_pdf cfg person w = (c, w2)"
      by (cases "create_pdf cfg person w")
    have cp: "create_pdf cfg person (log (OpenRead inp) (w\<lparr>trace := t\<rparr>)) =
                (c, w2\<lparr>trace := t @ [OpenRead inp, CreatePdf person]\<rparr>)" for t
      using create_pdf_shift[where cfg = cfg and person = person and w = w and t = "t @ [OpenRead inp]"] c by (simp add: log_def)
    show ?thesis
    proof (cases c)
      case (Inl e)
      have "\<forall>t. watermark_pdf cfg inp person out (w\<lparr>trace := t\<rparr>) =
              (Inl e, w2\<lparr>trace := t @ [OpenRead inp, CreatePdf person]\<rparr>)"
        using Some PdfFile cp Inl by (simp add: watermark_pdf_eq)
      then show ?thesis
        by (intro exI[of _ "Inl e"] exI[of _ w2] exI[of _ "[OpenRead inp, CreatePdf person]"]) simp
    next
      case (Inr wm)
      show ?thesis
      proof (cases "files w out = Some Directory \<or> \<not> creatable w out")
        case True
        have "\<forall>t. watermark_pdf cfg inp person out (w\<lparr>trace := t\<rparr>) =
              (Inl (if files w out = Some Directory then IsADirectoryError else OSError),
               w2\<lparr>trace := t @ [OpenRead inp, CreatePdf person]\<rparr>)"
          using Some PdfFile cp Inr True by (auto simp: watermark_pdf_eq)
        then show ?thesis
          by (intro exI[of _ "Inl (if files w out = Some Directory then IsADirectoryError else OSError)"]
              exI[of _ w2] exI[of _ "[OpenRead inp, CreatePdf person]"]) simp
      next
        case False
        have "\<forall>t. watermark_pdf cfg inp person out (w\<lparr>trace := t\<rparr>) =
              (Inr (), (w2\<lparr>files := (files w)(out \<mapsto> PdfFile (map (\<lambda>p. mergePage p wm) pages))\<rparr>)
                 \<lparr>trace := t @ [OpenRead inp, CreatePdf person, OpenWrite out]\<rparr>)"
          using Some PdfFile cp Inr False by (simp add: watermark_pdf_eq log_def)
        then show ?thesis
          by (intro exI[of _ "Inr ()"]
              exI[of _ "w2\<lparr>files := (files w)(out \<mapsto> PdfFile (map (\<lambda>p. mergePage p wm) pages))\<rparr>"]
              exI[of _ "[OpenRead inp, CreatePdf person, OpenWrite out]"]) simp
      qed
    qed
  qed
qed


lemma created_append: "created (es @ fs) = created es @ created fs"
  by (induction es rule: created.induct) simp_all

lemma prefix_three:
  "prefix es [a, b, c] \<Longrightarrow> es = [] \<or> es = [a] \<or> es = [a, b] \<or> es = [a, b, c]"
  by (auto simp: prefix_Cons)

lemma for_people_shift:
  "\<exists>r w' es. (\<forall>t. for_people cfg inp out people (w\<lparr>trace := t\<rparr>) = (r, w'\<lparr>trace := t @ es\<rparr>))
      \<and> (\<forall>p. OpenText p \<notin> set es)
      \<and> prefix (created es) people
      \<and> (r = Inr () \<longrightarrow> created es = people)"
proof (induction people arbitrary: w)
  case Nil
  show ?case
    by (intro exI[of _ "Inr ()"] exI[of _ w] exI[of _ "[]"]) simp
next
  case (Cons person people)
  let ?o = "combine_output_name_and_person w out person"
  obtain r1 w1 es1 where
    run1: "\<And>t. watermark_pdf cfg inp person ?o (w\<lparr>trace := t\<rparr>) = (r1, w1\<lparr>trace := t @ es1\<rparr>)"
    and pre1: "prefix es1 [OpenRead inp, CreatePdf person, OpenWrite ?o]"
    and ok1: "r1 = Inr () \<longrightarrow> es1 = [OpenRead inp, CreatePdf person, OpenWrite ?o]"
    using watermark_pdf_shift[of cfg inp person ?o w] by blast
  have shape: "es1 = [] \<or> es1 = [OpenRead inp] \<or> es1 = [OpenRead inp, CreatePdf person]
      \<or> es1 = [OpenRead inp, CreatePdf person, OpenWrite ?o]"
    using prefix_three[OF pre1] .
  show ?case
  proof (cases r1)
    case (Inl e)
    have "\<forall>t. for_people cfg inp out (person # people) (w\<lparr>trace := t\<rparr>) = (Inl e, w1\<lparr>trace := t @ es1\<rparr>)"
      using run1 Inl by simp
    moreover have "\<forall>p. OpenText p \<notin> set es1" "prefix (created es1) (person # people)"
      using shape by auto
    ultimately show ?thesis
      by (intro exI[of _ "Inl e"] exI[of _ w1] exI[of _ es1]) simp
  next
    case (Inr u)
    then have es1: "es1 = [OpenRead inp, CreatePdf person, OpenWrite ?o]"
      using ok1 by simp
    obtain r2 w2 es2 where
      run2: "\<And>t. for_people cfg inp out people (w1\<lparr>trace := t\<rparr>) = (r2, w2\<lparr>trace := t @ es2\<rparr>)"
      and no2: "\<forall>p. OpenText p \<notin> set es2"
      and pre2: "prefix (created es2) people"
      and ok2: "r2 = Inr () \<longrightarrow> created es2 = people"
      using Cons.IH[of w1] by blast
    have "\<forall>t. for_people cfg inp out (person # people) (w\<lparr>trace := t\<rparr>) =
            (r2, w2\<lparr>trace := t @ (es1 @ es2)\<rparr>)"
      using run1 Inr run2 by simp
    moreover have "\<forall>p. OpenText p \<notin> set (es1 @ es2)"
      using no2 es1 by simp
    moreover have "created (es1 @ es2) = person # created es2"
      by (simp add: created_append es1)
    ultimately show ?thesis
      using pre2 ok2 by (intro exI[of _ r2] exI[of _ w2] exI[of _ "es1 @ es2"]) simp
  qed
qed

lemma world_trace_same [simp]: "w\<lparr>trace := trace w\<rparr> = (w::world)"
  by simp

lemma alice_bob_lines:
  "splitlines (universal_newlines ''Alice\<newline>Bob\<newline>'') = [''Alice'', ''Bob'']"
  by (simp add: splitlines_def is_linebreak_def)

lemma ex_combine:
  "combine_output_name_and_person ex_world (PurePath [] [''out.pdf'']) ''Jane Doe''
     = PurePath [] [''out_Jane_Doe_01-15-2024.pdf'']"
  by (simp add: combine_output_name_and_person_def ex_date joinpath_def Path_def splitroot_def
      parent_def stem_def name_def str_replace_def)

lemma ex_main_names:
  "fst (main ex_cfg \<lparr>arg_input = PurePath [] [''report.pdf''], arg_output = PurePath [] [''out.pdf''],
                     names = Some [''Jane Doe''], name_file = Some (PurePath [] [''names.txt''])\<rparr>
          ex_world) = Inr ()"
proof -
  have e: "exists_path ex_world (PurePath [] [''report.pdf''])"
    by (simp add: exists_path_def ex_world_def)
  obtain w1 where "watermark_pdf ex_cfg (PurePath [] [''report.pdf'']) ''Jane Doe''
          (PurePath [] [''out_Jane_Doe_01-15-2024.pdf'']) ex_world = (Inr (), w1)"
    using ex_run_ok by (metis prod.collapse)
  then show ?thesis
    using e by (simp add: main_def ex_combine)
qed

text \<open>
  C7. On the same world (the same input document, output base path and date), running
  \<^verbatim>\<open>main\<close> with a name file whose contents are \<^verbatim>\<open>"Alice\nBob\n"\<close> and running it with
  \<^verbatim>\<open>--names "Alice" "Bob"\<close> give the same result and the same final world (the same
  files with the same contents), and the same events in the same order, apart from the
  opening of the name file itself.
\<close>

theorem main_name_file_as_names:
  assumes "names a = None" and "name_file a = Some nf"
    and "files w nf = Some (TextFile ''Alice\<newline>Bob\<newline>'')"
  shows "fst (main cfg a w) = fst (main cfg (a\<lparr>names := Some [''Alice'', ''Bob''], name_file := None\<rparr>) w)
       \<and> (snd (main cfg a w))\<lparr>trace := []\<rparr>
           = (snd (main cfg (a\<lparr>names := Some [''Alice'', ''Bob''], name_file := None\<rparr>) w))\<lparr>trace := []\<rparr>
       \<and> filter (\<lambda>e. e \<noteq> OpenText nf) (events_since w (snd (main cfg a w)))
           = events_since w (snd (main cfg (a\<lparr>names := Some [''Alice'', ''Bob''], name_file := None\<rparr>) w))"
proof (cases "exists_path w (arg_input a)")
  case False
  then show ?thesis by (simp add: main_def)
next
  case True
  obtain r w' es where
    run: "\<And>t. for_people cfg (arg_input a) (arg_output a) [''Alice'', ''Bob''] (w\<lparr>trace := t\<rparr>)
            = (r, w'\<lparr>trace := t @ es\<rparr>)"
    and es: "\<And>p. OpenText p \<notin> set es"
    using for_people_shift[of cfg "arg_input a" "arg_output a" "[''Alice'', ''Bob'']" w] by blast
  have rd: "read_text nf w = (Inr (universal_newlines ''Alice\<newline>Bob\<newline>''),
              w\<lparr>trace := trace w @ [OpenText nf]\<rparr>)"
    using assms(3) by (simp add: read_text_def log_def)
  have "main cfg a w =
          for_people cfg (arg_input a) (arg_output a)
            (splitlines (universal_newlines ''Alice\<newline>Bob\<newline>''))
            (w\<lparr>trace := trace w @ [OpenText nf]\<rparr>)"
    using True assms(1,2) by (simp add: main_def rd)
  then have m1: "main cfg a w = (r, w'\<lparr>trace := trace w @ OpenText nf # es\<rparr>)"
    by (simp only: alice_bob_lines run) simp
  have m2: "main cfg (a\<lparr>names := Some [''Alice'', ''Bob''], name_file := None\<rparr>) w
              = (r, w'\<lparr>trace := trace w @ es\<rparr>)"
    using True run[of "trace w"] by (simp add: main_def exists_path_def)
  have "filter (\<lambda>e. e \<noteq> OpenText nf) es = es"
    using es[of nf] by (auto simp: filter_id_conv)
  then show ?thesis
    by (simp add: m1 m2)
qed


theorem main_name_file_as_names_witness:
  "names \<lparr>arg_input = PurePath [] [''report.pdf''], arg_output = PurePath [] [''out.pdf''],
          names = None, name_file = Some (PurePath [] [''names.txt''])\<rparr> = None
   \<and> files ex_world (PurePath [] [''names.txt'']) = Some (TextFile ''Alice\<newline>Bob\<newline>'')
   \<and> fst (main ex_cfg \<lparr>arg_input = PurePath [] [''report.pdf''], arg_output = PurePath [] [''out.pdf''],
                  names = None, name_file = Some (PurePath [] [''names.txt''])\<rparr> ex_world)
     = fst (main ex_cfg \<lparr>arg_input = PurePath [] [''report.pdf''], arg_output = PurePath [] [''out.pdf''],
                  names = Some [''Alice'', ''Bob''], name_file = None\<rparr> ex_world)
   \<and> (snd (main ex_cfg \<lparr>arg_input = PurePath [] [''report.pdf''], arg_output = PurePath [] [''out.pdf''],
                  names = None, name_file = Some (PurePath [] [''names.txt''])\<rparr> ex_world))\<lparr>trace := []\<rparr>
     = (snd (main ex_cfg \<lparr>arg_input = PurePath [] [''report.pdf''], arg_output = PurePath [] [''out.pdf''],
                  names = Some [''Alice'', ''Bob''], name_file = None\<rparr> ex_world))\<lparr>trace := []\<rparr>
   \<and> filter (\<lambda>e. e \<noteq> OpenText (PurePath [] [''names.txt'']))
        (events_since ex_world
          (snd (main ex_cfg \<lparr>arg_input = PurePath [] [''report.pdf''], arg_output = PurePath [] [''out.pdf''],
                  names = None, name_file = Some (PurePath [] [''names.txt''])\<rparr> ex_world)))
     = events_since ex_world
          (snd (main ex_cfg \<lparr>arg_input = PurePath [] [''report.pdf''], arg_output = PurePath [] [''out.pdf''],
                  names = Some [''Alice'', ''Bob''], name_file = None\<rparr> ex_world))"
proof -
  have f: "files ex_world (PurePath [] [''names.txt'']) = Some (TextFile ''Alice\<newline>Bob\<newline>'')"
    by (simp add: ex_world_def)
  show ?thesis
    using main_name_file_as_names [OF _ _ f, where cfg = ex_cfg
        and a = "\<lparr>arg_input = PurePath [] [''report.pdf''], arg_output = PurePath [] [''out.pdf''],
                  names = None, name_file = Some (PurePath [] [''names.txt''])\<rparr>"] f
    by simp
qed

text \<open>
  C9. When \<^verbatim>\<open>--names\<close> is given, the name file plays no part: the run is the same
  whatever \<^verbatim>\<open>--name-file\<close> is, no file is opened in text mode, and the recipients
  \<^verbatim>\<open>create_pdf\<close> is called for are the given names in order, all of them when the run
  returns normally and a prefix of them when an exception ends it.
\<close>

theorem main_names_take_precedence:
  assumes "names a = Some people"
  shows "main cfg (a\<lparr>name_file := nf\<rparr>) w = main cfg a w
       \<and> (\<forall>p. OpenText p \<notin> set (events_since w (snd (main cfg a w))))
       \<and> prefix (created (events_since w (snd (main cfg a w)))) people
       \<and> (fst (main cfg a w) = Inr () \<longrightarrow> created (events_since w (snd (main cfg a w))) = people)"
proof -
  have same: "main cfg (a\<lparr>name_file := nf\<rparr>) w = main cfg a w"
    using assms by (simp add: main_def)
  show ?thesis
  proof (cases "exists_path w (arg_input a)")
    case False
    then have "main cfg a w = (Inl FileNotFoundError, w)"
      by (simp add: main_def)
    then show ?thesis using same by (simp add: events_since_def)
  next
    case True
    obtain r w' es where
      run: "\<And>t. for_people cfg (arg_input a) (arg_output a) people (w\<lparr>trace := t\<rparr>) = (r, w'\<lparr>trace := t @ es\<rparr>)"
      and es: "\<And>p. OpenText p \<notin> set es" "prefix (created es) people" "r = Inr () \<Longrightarrow> created es = people"
      using for_people_shift[of cfg "arg_input a" "arg_output a" people w] by blast
    have "main cfg a w = (r, w'\<lparr>trace := trace w @ es\<rparr>)"
      using True assms run[of "trace w"] by (simp add: main_def)
    then show ?thesis using same es by simp
  qed
qed

theorem main_names_take_precedence_witness:
  "names \<lparr>arg_input = PurePath [] [''report.pdf''], arg_output = PurePath [] [''out.pdf''],
          names = Some [''Jane Doe''], name_file = Some (PurePath [] [''names.txt''])\<rparr>
     = Some [''Jane Doe'']
   \<and> main ex_cfg \<lparr>arg_input = PurePath [] [''report.pdf''], arg_output = PurePath [] [''out.pdf''],
                  names = Some [''Jane Doe''], name_file = None\<rparr> ex_world
     = main ex_cfg \<lparr>arg_input = PurePath [] [''report.pdf''], arg_output = PurePath [] [''out.pdf''],
                  names = Some [''Jane Doe''], name_file = Some (PurePath [] [''names.txt''])\<rparr> ex_world
   \<and> fst (main ex_cfg \<lparr>arg_input = PurePath [] [''report.pdf''], arg_output = PurePath [] [''out.pdf''],
                  names = Some [''Jane Doe''], name_file = Some (PurePath [] [''names.txt''])\<rparr> ex_world)
     = Inr ()
   \<and> created (events_since ex_world
        (snd (main ex_cfg \<lparr>arg_input = PurePath [] [''report.pdf''], arg_output = PurePath [] [''out.pdf''],
                  names = Some [''Jane Doe''], name_file = Some (PurePath [] [''names.txt''])\<rparr> ex_world)))
     = [''Jane Doe'']"
proof -
  have h: "names \<lparr>arg_input = PurePath [] [''report.pdf''], arg_output = PurePath [] [''out.pdf''],
          names = Some [''Jane Doe''], name_file = Some (PurePath [] [''names.txt''])\<rparr>
     = Some [''Jane Doe'']"
    by simp
  show ?thesis
    using main_names_take_precedence [OF h, where cfg = ex_cfg and w = ex_world and nf = None]
      ex_main_names
    by simp
qed

lemma split_on_nonempty: "split_on sep s \<noteq> []"
  by (induction s) (auto split: list.splits)

lemma split_on_no_sep: "sep \<notin> set s \<Longrightarrow> split_on sep s = [s]"
  by (induction s) auto

lemma split_on_parts: "x \<in> set (split_on sep s) \<Longrightarrow> sep \<notin> set x"
  by (induction s arbitrary: x) (auto split: if_splits list.splits)

lemma rfind_append:
  "rfind c (xs @ ys) =
     (case rfind c ys of Some i \<Rightarrow> Some (length xs + i) | None \<Rightarrow> rfind c xs)"
  by (induction xs) (auto split: option.splits)

lemma digit_in: "digit n \<in> set ''0123456789''"
  unfolding digit_def by (rule nth_mem) simp

lemma decimal_digits: "set (decimal n) \<subseteq> set ''0123456789''"
proof (induction n rule: decimal.induct)
  case (1 n)
  show ?case
  proof (cases "n < 10")
    case True
    then show ?thesis using digit_in[of n] by (subst decimal.simps) simp
  next
    case False
    then show ?thesis using 1 digit_in[of n] by (subst decimal.simps) simp
  qed
qed

lemma decimal_no_slash: "CHR ''/'' \<notin> set (decimal n)"
proof -
  have "CHR ''/'' \<notin> set ''0123456789''"
    by simp
  then show ?thesis
    using decimal_digits[of n] by (meson subsetD)
qed

lemma get_date_no_slash: "CHR ''/'' \<notin> set (get_date w)"
  by (simp add: get_date_def strftime_mdY_def zfill_def decimal_no_slash)

lemma zfill2_decimal: "m < 100 \<Longrightarrow> zfill 2 (decimal m) = [digit (m div 10), digit m]"
  by (cases "m < 10")
     (simp_all add: decimal.simps[of m] decimal.simps[of "m div 10"] zfill_def digit_def)

lemma decimal4:
  assumes "1000 \<le> y" and "y < 10000"
  shows "decimal y = [digit (y div 1000), digit (y div 100), digit (y div 10), digit y]"
proof -
  have a: "\<not> y < 10" "\<not> y div 10 < 10" "\<not> y div 100 < 10" "y div 1000 < 10"
    using assms by (simp_all add: not_less div_less_iff_less_mult less_eq_div_iff_mult_less_eq)
  have d: "y div 10 div 10 = y div 100" "y div 100 div 10 = y div 1000"
    by (simp_all add: div_mult2_eq[symmetric])
  have s3: "decimal (y div 1000) = [digit (y div 1000)]"
    using a(4) by (simp add: decimal.simps[of "y div 1000"])
  have s2: "decimal (y div 100) = [digit (y div 1000), digit (y div 100)]"
    using a(3) s3 d(2) by (simp add: decimal.simps[of "y div 100"])
  have s1: "decimal (y div 10) = [digit (y div 1000), digit (y div 100), digit (y div 10)]"
    using a(2) s2 d(1) by (simp add: decimal.simps[of "y div 10"])
  show ?thesis
    using a(1) s1 by (simp add: decimal.simps[of y])
qed

lemma get_date_format:
  assumes "month (now w) < 100" and "day (now w) < 100"
    and "1000 \<le> year (now w)" and "year (now w) < 10000"
  shows "get_date w =
     [digit (month (now w) div 10), digit (month (now w)), CHR ''-'',
      digit (day (now w) div 10), digit (day (now w)), CHR ''-'',
      digit (year (now w) div 1000), digit (year (now w) div 100),
      digit (year (now w) div 10), digit (year (now w))]"
  using assms by (simp add: get_date_def strftime_mdY_def zfill2_decimal decimal4)

lemma Path_plain:
  assumes "CHR ''/'' \<notin> set s" and "s \<noteq> []" and "s \<noteq> ''.''"
  shows "Path s = PurePath [] [s]"
proof -
  have "hd s \<noteq> CHR ''/''"
    using assms(1,2) by (cases s) auto
  then show ?thesis
    using assms by (simp add: Path_def splitroot_def split_on_no_sep)
qed

lemma Path_tail_no_slash: "x \<in> set (tail (Path s)) \<Longrightarrow> CHR ''/'' \<notin> set x"
  by (auto simp: Path_def splitroot_def Let_def dest: split_on_parts split: if_splits)

lemma name_no_slash: "CHR ''/'' \<notin> set (name (Path s))"
  using Path_tail_no_slash[of "last (tail (Path s))" s] by (auto simp: name_def)

lemma stem_no_slash: "CHR ''/'' \<notin> set (stem (Path s))"
  using name_no_slash[of s] by (auto simp: stem_def split: option.splits dest: in_set_takeD)

lemma str_replace_no_slash:
  "CHR ''/'' \<notin> set person \<Longrightarrow> CHR ''/'' \<notin> set (str_replace (CHR '' '') (CHR ''_'') person)"
  by (auto simp: str_replace_def)

lemma joinpath_plain:
  assumes "CHR ''/'' \<notin> set fn" and "fn \<noteq> []" and "fn \<noteq> ''.''"
  shows "joinpath p fn = PurePath (root p) (tail p @ [fn])"
  using Path_plain[OF assms] by (simp add: joinpath_def)

lemma parent_joined: "parent (PurePath (root p) (tail p @ [fn])) = p"
  by (simp add: parent_def)

lemma name_joined: "name (PurePath r (ps @ [fn])) = fn"
  by (simp add: name_def)

lemma suffix_pdf:
  assumes "a \<noteq> []"
  shows "suffix_of (PurePath r (ps @ [a @ ''.pdf''])) = ''.pdf''"
proof -
  have "rfind (CHR ''.'') (a @ ''.pdf'') = Some (length a)"
    by (simp add: rfind_append)
  then show ?thesis
    using assms by (simp add: suffix_of_def name_joined)
qed

text \<open>
  C2. For an output path \<^verbatim>\<open>Path(s)\<close> and a person, \<^verbatim>\<open>combine_output_name_and_person\<close>
  returns the parent of the output path joined with the stem, an underscore, the person
  with every space replaced by an underscore, an underscore, the date and the literal
  \<^verbatim>\<open>.pdf\<close>. When the person holds no slash, that string is the name of the result, the
  parent of the result is the parent of the output path and its suffix is \<^verbatim>\<open>.pdf\<close>,
  whatever the suffix of the output path was. The result depends on the world through
  the date only, and for a four-digit year the date is two digits, a dash, two digits, a
  dash and four digits.
\<close>

theorem combine_output_name_and_person_path:
  "combine_output_name_and_person w (Path s) person = joinpath (parent (Path s)) (stem (Path s) @ ''_'' @ str_replace (CHR '' '') (CHR ''_'') person @ ''_'' @ get_date w @ ''.pdf'')
   \<and> (CHR ''/'' \<notin> set person \<longrightarrow>
        parent (combine_output_name_and_person w (Path s) person) = parent (Path s)
        \<and> name (combine_output_name_and_person w (Path s) person) = stem (Path s) @ ''_'' @ str_replace (CHR '' '') (CHR ''_'') person @ ''_'' @ get_date w @ ''.pdf''
        \<and> suffix_of (combine_output_name_and_person w (Path s) person) = ''.pdf'')
   \<and> (now w' = now w \<longrightarrow>
        combine_output_name_and_person w' (Path s) person = combine_output_name_and_person w (Path s) person)
   \<and> (month (now w) < 100 \<and> day (now w) < 100 \<and> 1000 \<le> year (now w) \<and> year (now w) < 10000 \<longrightarrow>
        get_date w =
          [digit (month (now w) div 10), digit (month (now w)), CHR ''-'',
           digit (day (now w) div 10), digit (day (now w)), CHR ''-'',
           digit (year (now w) div 1000), digit (year (now w) div 100),
           digit (year (now w) div 10), digit (year (now w))])"
proof -
  let ?a = "stem (Path s) @ ''_'' @ str_replace (CHR '' '') (CHR ''_'') person @ ''_'' @ get_date w"
  let ?p = "parent (Path s)"
  have c: "combine_output_name_and_person w (Path s) person = joinpath ?p (?a @ ''.pdf'')"
    by (simp add: combine_output_name_and_person_def)
  have plain: "combine_output_name_and_person w (Path s) person = PurePath (root ?p) (tail ?p @ [?a @ ''.pdf''])"
    if "CHR ''/'' \<notin> set person"
  proof -
    have "CHR ''/'' \<notin> set (?a @ ''.pdf'')"
      using stem_no_slash[of s] str_replace_no_slash[OF that] get_date_no_slash[of w] by simp
    moreover have "?a @ ''.pdf'' \<noteq> []" "?a @ ''.pdf'' \<noteq> ''.''"
      by simp_all
    ultimately show ?thesis
      unfolding c by (rule joinpath_plain)
  qed
  have "parent (combine_output_name_and_person w (Path s) person) = ?p \<and> name (combine_output_name_and_person w (Path s) person) = ?a @ ''.pdf'' \<and> suffix_of (combine_output_name_and_person w (Path s) person) = ''.pdf''"
    if "CHR ''/'' \<notin> set person"
  proof -
    have "suffix_of (PurePath (root ?p) (tail ?p @ [?a @ ''.pdf''])) = ''.pdf''"
      by (rule suffix_pdf) simp
    moreover have "name (PurePath (root ?p) (tail ?p @ [?a @ ''.pdf''])) = ?a @ ''.pdf''"
      by (rule name_joined)
    moreover have "parent (PurePath (root ?p) (tail ?p @ [?a @ ''.pdf''])) = ?p"
      by (rule parent_joined)
    ultimately show ?thesis
      unfolding plain[OF that] by simp
  qed
  moreover have "combine_output_name_and_person w' (Path s) person = combine_output_name_and_person w (Path s) person" if "now w' = now w"
    using that by (simp add: combine_output_name_and_person_def get_date_def)
  ultimately show ?thesis
    using c get_date_format[of w] by simp
qed

theorem combine_output_name_and_person_path_witness:
  "CHR ''/'' \<notin> set ''Jane Doe''
   \<and> Path ''reports/out.docx'' = PurePath [] [''reports'', ''out.docx'']
   \<and> combine_output_name_and_person ex_world (Path ''reports/out.docx'') ''Jane Doe''
       = PurePath [] [''reports'', ''out_Jane_Doe_01-15-2024.pdf'']
   \<and> parent (combine_output_name_and_person ex_world (Path ''reports/out.docx'') ''Jane Doe'')
       = parent (Path ''reports/out.docx'')
   \<and> name (combine_output_name_and_person ex_world (Path ''reports/out.docx'') ''Jane Doe'')
       = ''out_Jane_Doe_01-15-2024.pdf''
   \<and> suffix_of (combine_output_name_and_person ex_world (Path ''reports/out.docx'') ''Jane Doe'')
       = ''.pdf''
   \<and> now (ex_world\<lparr>trace := [CreatePdf ''Alice'']\<rparr>) = now ex_world
   \<and> combine_output_name_and_person (ex_world\<lparr>trace := [CreatePdf ''Alice'']\<rparr>)
         (Path ''reports/out.docx'') ''Jane Doe''
       = combine_output_name_and_person ex_world (Path ''reports/out.docx'') ''Jane Doe''
   \<and> month (now ex_world) < 100 \<and> day (now ex_world) < 100
   \<and> 1000 \<le> year (now ex_world) \<and> year (now ex_world) < 10000
   \<and> get_date ex_world = ''01-15-2024''"
proof -
  have d: "month (now ex_world) < 100" "day (now ex_world) < 100"
    "1000 \<le> year (now ex_world)" "year (now ex_world) < 10000"
    by (simp_all add: ex_world_def)
  have p: "Path ''reports/out.docx'' = PurePath [] [''reports'', ''out.docx'']"
    by (simp add: Path_def splitroot_def)
  have st: "stem (PurePath [] [''reports'', ''out.docx'']) = ''out''"
    by (simp add: stem_def name_def)
  have pa: "parent (PurePath [] [''reports'', ''out.docx'']) = PurePath [] [''reports'']"
    by (simp add: parent_def)
  have j: "joinpath (PurePath [] [''reports'']) ''out_Jane_Doe_01-15-2024.pdf''
             = PurePath [] [''reports'', ''out_Jane_Doe_01-15-2024.pdf'']"
    by (simp add: joinpath_def Path_def splitroot_def)
  have r: "str_replace (CHR '' '') (CHR ''_'') ''Jane Doe'' = ''Jane_Doe''"
    by (simp add: str_replace_def)
  have n: "now (ex_world\<lparr>trace := [CreatePdf ''Alice'']\<rparr>) = now ex_world"
    by simp
  show ?thesis
    using combine_output_name_and_person_path [where w = ex_world and s = "''reports/out.docx''"
        and person = "''Jane Doe''" and w' = "ex_world\<lparr>trace := [CreatePdf ''Alice'']\<rparr>"]
    by (simp add: p st pa j r n d ex_date parent_def name_def suffix_of_def)
qed

end
